theory Spec2Isabelle
  imports
    Complex_Main
    "HOL-Library.AList"
    "HOL-Library.DAList"
    "HOL-Library.Sublist"
    "HOL-Library.Char_ord"
    "HOL-Library.List_Lexorder"
begin

section \<open>Proof-carrying capabilities: a shallow embedding of \<^verbatim>\<open>csp_gateway/pccap.py\<close>\<close>

text \<open>
  Conventions of the embedding.
  \<^item> Python \<^verbatim>\<open>str\<close> and \<^verbatim>\<open>bytes\<close> are both \<^typ>\<open>string\<close>: a text is taken as its
    UTF-8 byte sequence, so \<^verbatim>\<open>len(s.encode())\<close> is \<^term>\<open>length s\<close>.
  \<^item> Timestamps (\<^verbatim>\<open>float\<close> in the source) are exact reals: the rounding of
    \<^verbatim>\<open>now + ttl_seconds\<close> and NaN are outside the model.
  \<^item> \<^verbatim>\<open>os.path\<close> is \<^verbatim>\<open>posixpath\<close> and \<^verbatim>\<open>PurePath\<close> is \<^verbatim>\<open>PurePosixPath\<close>.
  \<^item> What the process reads from its surroundings is a parameter: the working directory,
    \<^verbatim>\<open>json.dumps\<close>, HMAC-SHA256 and the formatting of a timestamp by \<^verbatim>\<open>datetime\<close> are fields
    of a \<open>runtime\<close> record, every reading of \<^verbatim>\<open>time.time()\<close> and every draw of
    \<^verbatim>\<open>os.urandom\<close> is an argument.
  \<^item> The human-readable reason text of a decision is not modelled, except where its
    computation can raise; a scope mismatch keeps the kind of check that failed.
  \<^item> An exception is a value: a function that can raise returns \<open>pyerror + 'a\<close>.
  \<^item> Mutation of the store is explicit state passing: an operation returns its result
    together with the new store.
\<close>

subsection \<open>Python values\<close>

text \<open>Values of request arguments: the closed variant none, bool, int, str, bytes.\<close>

datatype pyval = PNone | PBool bool | PInt int | PStr string | PBytes string

text \<open>Values a scope may require of an argument: those with a JSON form, as
  \<^verbatim>\<open>canonical_bytes\<close> serialises them.\<close>

datatype jsonval = JNull | JBool bool | JInt int | JStr string

text \<open>Truth value of an object, as \<^verbatim>\<open>if x:\<close> and \<^verbatim>\<open>x or y\<close> test it.\<close>

fun py_truthy :: "pyval \<Rightarrow> bool" where
  "py_truthy PNone = False"
| "py_truthy (PBool b) = b"
| "py_truthy (PInt n) = (n \<noteq> 0)"
| "py_truthy (PStr s) = (s \<noteq> [])"
| "py_truthy (PBytes b) = (b \<noteq> [])"

definition py_or :: "pyval \<Rightarrow> pyval \<Rightarrow> pyval" where
  "py_or a b = (if py_truthy a then a else b)"

text \<open>\<^verbatim>\<open>actual != expected\<close> is the negation of this equality; \<^verbatim>\<open>True == 1\<close> holds in Python.\<close>

fun py_eq :: "pyval \<Rightarrow> jsonval \<Rightarrow> bool" where
  "py_eq PNone JNull = True"
| "py_eq (PBool a) (JBool b) = (a = b)"
| "py_eq (PBool a) (JInt n) = ((if a then 1 else 0) = n)"
| "py_eq (PInt m) (JBool b) = (m = (if b then 1 else 0))"
| "py_eq (PInt m) (JInt n) = (m = n)"
| "py_eq (PStr s) (JStr u) = (s = u)"
| "py_eq _ _ = False"

text \<open>A request's \<^verbatim>\<open>arguments\<close> dict; \<^verbatim>\<open>arguments.get(k)\<close> gives \<^verbatim>\<open>None\<close> for a missing key.\<close>

type_synonym arguments = "string \<Rightarrow> pyval option"

definition args_get :: "arguments \<Rightarrow> string \<Rightarrow> pyval" where
  "args_get a k = (case a k of None \<Rightarrow> PNone | Some v \<Rightarrow> v)"

subsubsection \<open>\<^verbatim>\<open>str(x)\<close>\<close>

definition digit_char :: "nat \<Rightarrow> char" where
  "digit_char n = char_of (48 + n)"

function str_nat :: "nat \<Rightarrow> string" where
  "str_nat n = (if n < 10 then [digit_char n] else str_nat (n div 10) @ [digit_char (n mod 10)])"
  by pat_completeness auto
termination
  by (relation "measure (\<lambda>n. n)") auto

definition str_int :: "int \<Rightarrow> string" where
  "str_int i = (if i < 0 then CHR ''-'' # str_nat (nat (- i)) else str_nat (nat i))"

definition hex_char :: "nat \<Rightarrow> char" where
  "hex_char n = (if n < 10 then char_of (48 + n) else char_of (87 + n))"

text \<open>One byte inside \<^verbatim>\<open>repr(bytes)\<close>, for the quote character \<open>q\<close> in use.\<close>

definition repr_byte :: "char \<Rightarrow> char \<Rightarrow> string" where
  "repr_byte q c =
     (if c = q \<or> c = CHR 0x5C then [CHR 0x5C, c]
      else if c = CHR 0x09 then [CHR 0x5C, CHR ''t'']
      else if c = CHR 0x0A then [CHR 0x5C, CHR ''n'']
      else if c = CHR 0x0D then [CHR 0x5C, CHR ''r'']
      else if (of_char c :: nat) < 32 \<or> 127 \<le> (of_char c :: nat)
        then [CHR 0x5C, CHR ''x'', hex_char (of_char c div 16), hex_char (of_char c mod 16)]
      else [c])"

definition repr_bytes :: "string \<Rightarrow> string" where
  "repr_bytes b =
     (let q = (if CHR 0x27 \<in> set b \<and> CHR 0x22 \<notin> set b then CHR 0x22 else CHR 0x27)
      in CHR ''b'' # q # concat (map (repr_byte q) b) @ [q])"

fun py_str :: "pyval \<Rightarrow> string" where
  "py_str PNone = ''None''"
| "py_str (PBool b) = (if b then ''True'' else ''False'')"
| "py_str (PInt n) = str_int n"
| "py_str (PStr s) = s"
| "py_str (PBytes b) = repr_bytes b"

subsection \<open>POSIX paths\<close>

text \<open>The exceptions that the library calls of the module raise.\<close>

datatype pyerror = ValueError | TypeError

text \<open>\<^verbatim>\<open>s.split(sep)\<close> for a one-character separator: never the empty list.\<close>

fun split_on :: "char \<Rightarrow> string \<Rightarrow> string list" where
  "split_on sep [] = [[]]"
| "split_on sep (x # xs) =
     (if x = sep then [] # split_on sep xs
      else (case split_on sep xs of [] \<Rightarrow> [[x]] | w # ws \<Rightarrow> (x # w) # ws))"

text \<open>\<^verbatim>\<open>sep.join(parts)\<close>.\<close>

fun join_with :: "string \<Rightarrow> string list \<Rightarrow> string" where
  "join_with sep [] = []"
| "join_with sep [w] = w"
| "join_with sep (w # v # ws) = w @ sep @ join_with sep (v # ws)"

definition startswith :: "string \<Rightarrow> string \<Rightarrow> bool" where
  "startswith s p = (take (length p) s = p)"

definition endswith :: "string \<Rightarrow> string \<Rightarrow> bool" where
  "endswith s p = (length p \<le> length s \<and> drop (length s - length p) s = p)"

text \<open>The number of leading slashes POSIX keeps: two when there are exactly two, else one.\<close>

definition initial_slashes :: "string \<Rightarrow> nat" where
  "initial_slashes path =
     (if startswith path ''/''
      then (if startswith path ''//'' \<and> \<not> startswith path ''///'' then 2 else 1)
      else 0)"

text \<open>The body of the loop of \<^verbatim>\<open>posixpath.normpath\<close> over the components.\<close>

definition normpath_step :: "nat \<Rightarrow> string list \<Rightarrow> string \<Rightarrow> string list" where
  "normpath_step slashes new_comps c =
     (if c = [] \<or> c = ''.'' then new_comps
      else if c \<noteq> ''..'' \<or> (slashes = 0 \<and> new_comps = [])
              \<or> (new_comps \<noteq> [] \<and> last new_comps = ''..'')
        then new_comps @ [c]
      else if new_comps \<noteq> [] then butlast new_comps
      else new_comps)"

definition normpath :: "string \<Rightarrow> string" where
  "normpath path =
     (if path = [] then ''.''
      else
        let slashes = initial_slashes path;
            comps = foldl (normpath_step slashes) [] (split_on CHR ''/'' path);
            joined = join_with ''/'' comps;
            res = (if slashes \<noteq> 0 then replicate slashes CHR ''/'' @ joined else joined)
        in if res = [] then ''.'' else res)"

definition isabs :: "string \<Rightarrow> bool" where
  "isabs s = startswith s ''/''"

text \<open>\<^verbatim>\<open>posixpath.join(a, b)\<close> for two arguments.\<close>

definition path_join :: "string \<Rightarrow> string \<Rightarrow> string" where
  "path_join a b =
     (if startswith b ''/'' then b
      else if a = [] \<or> endswith a ''/'' then a @ b
      else a @ ''/'' @ b)"

text \<open>The loop of \<^verbatim>\<open>posixpath.commonpath\<close>: the components of \<open>s1\<close> up to the first one
  that differs from \<open>s2\<close>. The source reads \<^verbatim>\<open>s2[i]\<close> for every index of \<open>s1\<close>, which is in
  range because \<open>s1\<close> is the minimum of the two lists; the third equation is that
  unreachable case.\<close>

fun common_components :: "string list \<Rightarrow> string list \<Rightarrow> string list" where
  "common_components [] s2 = []"
| "common_components (c # cs) (d # ds) = (if c \<noteq> d then [] else c # common_components cs ds)"
| "common_components (c # cs) [] = []"

definition path_components :: "string \<Rightarrow> string list" where
  "path_components p = filter (\<lambda>c. c \<noteq> [] \<and> c \<noteq> ''.'') (split_on CHR ''/'' p)"

text \<open>\<^verbatim>\<open>posixpath.commonpath([p, q])\<close>; it raises \<^verbatim>\<open>ValueError\<close> when one path is absolute and
  the other is not.\<close>

definition commonpath :: "string \<Rightarrow> string \<Rightarrow> pyerror + string" where
  "commonpath p q =
     (if isabs p \<noteq> isabs q then Inl ValueError
      else
        let sp = path_components p;
            sq = path_components q;
            s1 = min sp sq;
            s2 = max sp sq;
            common = common_components s1 s2
        in Inr ((if isabs p then ''/'' else []) @ join_with ''/'' common))"

text \<open>\<^verbatim>\<open>PurePath(p).parts\<close>: the root, if any, then the components that are neither empty
  nor \<^verbatim>\<open>.\<close>; a \<^verbatim>\<open>..\<close> stays.\<close>

definition purepath_parts :: "string \<Rightarrow> string list" where
  "purepath_parts p =
     (let root = replicate (initial_slashes p) CHR ''/'';
          parsed = filter (\<lambda>x. x \<noteq> [] \<and> x \<noteq> ''.'') (split_on CHR ''/'' (drop (length root) p))
      in if root \<noteq> [] then root # parsed else parsed)"

text \<open>A component as \<^verbatim>\<open>normpath\<close> and \<^verbatim>\<open>commonpath\<close> keep them: not empty, not \<^verbatim>\<open>.\<close>, and
  without a separator.\<close>

definition good_component :: "string \<Rightarrow> bool" where
  "good_component w = (w \<noteq> [] \<and> w \<noteq> ''.'' \<and> CHR ''/'' \<notin> set w)"

subsection \<open>The surroundings of the process\<close>

text \<open>The tree handed to \<^verbatim>\<open>json.dumps\<close> by \<^verbatim>\<open>canonical_bytes\<close>.\<close>

datatype json = JScalar jsonval | JFloat real | JObject "(string \<times> json) list"

text \<open>\<open>getcwd\<close> is \<^verbatim>\<open>os.getcwd()\<close>; \<open>json_dumps\<close> is
  \<^verbatim>\<open>json.dumps(d, sort_keys=True, separators=(",", ":")).encode()\<close>; \<open>hmac_sha256 key msg\<close> is
  \<^verbatim>\<open>hmac.new(key, msg, hashlib.sha256).digest()\<close>; \<open>utc_isoformat ts\<close> is
  \<^verbatim>\<open>datetime.fromtimestamp(ts, tz=timezone.utc).isoformat()\<close>, which raises for a timestamp
  outside the years 1 to 9999.\<close>

record runtime =
  getcwd :: string
  json_dumps :: "json \<Rightarrow> string"
  hmac_sha256 :: "string \<Rightarrow> string \<Rightarrow> string"
  utc_isoformat :: "real \<Rightarrow> pyerror + string"

definition abspath :: "runtime \<Rightarrow> string \<Rightarrow> string" where
  "abspath R path = normpath (if \<not> isabs path then path_join (getcwd R) path else path)"

subsection \<open>\<^verbatim>\<open>PCCapScope\<close>\<close>

record PCCapScope =
  tool_name :: string
  allowed_args :: "(string \<times> jsonval) list"
  path_prefix :: "string option"
  max_bytes :: "int option"

definition scope_to_dict :: "PCCapScope \<Rightarrow> json" where
  "scope_to_dict sc = JObject
     [(''tool_name'', JScalar (JStr (tool_name sc))),
      (''allowed_args'', JObject (map (\<lambda>(k, v). (k, JScalar v)) (allowed_args sc))),
      (''path_prefix'', JScalar (case path_prefix sc of None \<Rightarrow> JNull | Some p \<Rightarrow> JStr p)),
      (''max_bytes'', JScalar (case max_bytes sc of None \<Rightarrow> JNull | Some n \<Rightarrow> JInt n))]"

text \<open>Which check of \<^verbatim>\<open>matches_request\<close> rejected the request.\<close>

datatype mismatch =
  ToolMismatch | PathTraversal | NotUnderPrefix | ExceedsMaxBytes | ArgMismatch string

text \<open>Line 119: \<^verbatim>\<open>arguments.get("path") or arguments.get("file_path") or arguments.get("target")\<close>.\<close>

definition path_argument :: "arguments \<Rightarrow> pyval" where
  "path_argument args =
     py_or (py_or (args_get args ''path'') (args_get args ''file_path'')) (args_get args ''target'')"

text \<open>Lines 122 to 137, for a path argument that passed \<^verbatim>\<open>if path:\<close>. The handler
  \<^verbatim>\<open>except ValueError\<close> meets every error of \<open>commonpath\<close>, which raises no other.\<close>

definition check_path_text :: "runtime \<Rightarrow> string \<Rightarrow> string \<Rightarrow> mismatch option" where
  "check_path_text R pfx path_text =
     (if ''..'' \<in> set (purepath_parts path_text) then Some PathTraversal
      else
        let normalized = normpath path_text in
        if ''..'' \<in> set (purepath_parts normalized) then Some PathTraversal
        else
          let requested_abs = abspath R normalized;
              allowed_abs = abspath R (normpath pfx)
          in (case commonpath requested_abs allowed_abs of
                Inl e \<Rightarrow> Some NotUnderPrefix
              | Inr common \<Rightarrow> if common \<noteq> allowed_abs then Some NotUnderPrefix else None))"

text \<open>Lines 118 to 137: the path prefix constraint.\<close>

definition check_path_prefix :: "runtime \<Rightarrow> string option \<Rightarrow> arguments \<Rightarrow> mismatch option" where
  "check_path_prefix R pfx args =
     (case pfx of
        None \<Rightarrow> None
      | Some p \<Rightarrow>
          let path = path_argument args in
          if py_truthy path then check_path_text R p (py_str path) else None)"

text \<open>Lines 140 to 148: the size constraint.\<close>

definition check_max_bytes :: "int option \<Rightarrow> arguments \<Rightarrow> mismatch option" where
  "check_max_bytes limit args =
     (case limit of
        None \<Rightarrow> None
      | Some m \<Rightarrow>
          let content = py_or (args_get args ''content'') (args_get args ''data'') in
          if content \<noteq> PNone then
            let size_bytes = (case content of PBytes b \<Rightarrow> length b | _ \<Rightarrow> length (py_str content))
            in if int size_bytes > m then Some ExceedsMaxBytes else None
          else None)"

text \<open>Lines 151 to 154: the loop over \<^verbatim>\<open>allowed_args.items()\<close>.\<close>

fun check_allowed_args :: "(string \<times> jsonval) list \<Rightarrow> arguments \<Rightarrow> mismatch option" where
  "check_allowed_args [] args = None"
| "check_allowed_args ((key, expected) # rest) args =
     (if \<not> py_eq (args_get args key) expected then Some (ArgMismatch key)
      else check_allowed_args rest args)"

definition matches_request ::
  "runtime \<Rightarrow> PCCapScope \<Rightarrow> string \<Rightarrow> arguments \<Rightarrow> bool \<times> mismatch option" where
  "matches_request R sc tool args =
     (if tool \<noteq> tool_name sc then (False, Some ToolMismatch)
      else (case check_path_prefix R (path_prefix sc) args of
              Some m \<Rightarrow> (False, Some m)
            | None \<Rightarrow>
               (case check_max_bytes (max_bytes sc) args of
                  Some m \<Rightarrow> (False, Some m)
                | None \<Rightarrow>
                   (case check_allowed_args (allowed_args sc) args of
                      Some m \<Rightarrow> (False, Some m)
                    | None \<Rightarrow> (True, None)))))"

subsection \<open>\<^verbatim>\<open>PCCapToken\<close>\<close>

datatype SignatureAlgorithm = HMAC_SHA256 | ED25519

fun algorithm_value :: "SignatureAlgorithm \<Rightarrow> string" where
  "algorithm_value HMAC_SHA256 = ''HS256''"
| "algorithm_value ED25519 = ''Ed25519''"

record PCCapToken =
  token_id :: string
  principal_sub :: string
  scope :: PCCapScope
  issued_at :: real
  expires_at :: real
  issued_by :: string
  policy_id :: "string option"
  single_use :: bool
  nonce :: "string option"
  signature :: "string option"
  algorithm :: SignatureAlgorithm

definition json_opt_str :: "string option \<Rightarrow> json" where
  "json_opt_str x = JScalar (case x of None \<Rightarrow> JNull | Some s \<Rightarrow> JStr s)"

definition to_dict :: "PCCapToken \<Rightarrow> bool \<Rightarrow> json" where
  "to_dict t include_signature = JObject
     ([(''token_id'', JScalar (JStr (token_id t))),
       (''principal_sub'', JScalar (JStr (principal_sub t))),
       (''scope'', scope_to_dict (scope t)),
       (''issued_at'', JFloat (issued_at t)),
       (''expires_at'', JFloat (expires_at t)),
       (''issued_by'', JScalar (JStr (issued_by t))),
       (''policy_id'', json_opt_str (policy_id t)),
       (''single_use'', JScalar (JBool (single_use t))),
       (''nonce'', json_opt_str (nonce t)),
       (''algorithm'', JScalar (JStr (algorithm_value (algorithm t))))]
      @ (case signature t of
           Some s \<Rightarrow> if include_signature \<and> s \<noteq> [] then [(''signature'', JScalar (JStr s))] else []
         | None \<Rightarrow> []))"

text \<open>\<^verbatim>\<open>is_expired(now)\<close>; \<open>clock\<close> is what \<^verbatim>\<open>time.time()\<close> returns when \<^verbatim>\<open>now\<close> is omitted.\<close>

definition is_expired :: "PCCapToken \<Rightarrow> real \<Rightarrow> real option \<Rightarrow> bool" where
  "is_expired t clock now = ((case now of None \<Rightarrow> clock | Some n \<Rightarrow> n) \<ge> expires_at t)"

definition canonical_bytes :: "runtime \<Rightarrow> PCCapToken \<Rightarrow> string" where
  "canonical_bytes R t = json_dumps R (to_dict t False)"

subsection \<open>\<^verbatim>\<open>Keyring\<close>\<close>

definition b64_alphabet :: string where
  "b64_alphabet = ''ABCDEFGHIJKLMNOPQRSTUVWXYZabcdefghijklmnopqrstuvwxyz0123456789+/''"

definition b64_char :: "nat \<Rightarrow> char" where
  "b64_char n = b64_alphabet ! (n mod 64)"

text \<open>\<^verbatim>\<open>base64.b64encode\<close>: three bytes are 24 bits, written as four characters of six
  bits each; a tail of one or two bytes is filled with zero bits and the characters that
  hold no data are replaced by the padding character.\<close>

definition group_value :: "char \<Rightarrow> char \<Rightarrow> char \<Rightarrow> nat" where
  "group_value a b c = of_char a * 65536 + of_char b * 256 + of_char c"

definition b64_group :: "char \<Rightarrow> char \<Rightarrow> char \<Rightarrow> string" where
  "b64_group a b c =
     (let n = group_value a b c
      in [b64_char (n div 262144), b64_char (n div 4096), b64_char (n div 64), b64_char n])"

fun b64encode :: "string \<Rightarrow> string" where
  "b64encode [] = []"
| "b64encode [a] = take 2 (b64_group a (CHR 0x00) (CHR 0x00)) @ ''==''"
| "b64encode [a, b] = take 3 (b64_group a b (CHR 0x00)) @ ''=''"
| "b64encode (a # b # c # rest) = b64_group a b c @ b64encode rest"

record Keyring =
  secret :: string

text \<open>\<^verbatim>\<open>Keyring(secret_key)\<close>: \<open>rnd\<close> is the draw of \<^verbatim>\<open>os.urandom(32)\<close>, taken when no key or
  an empty one is given.\<close>

definition new_keyring :: "string \<Rightarrow> string option \<Rightarrow> Keyring" where
  "new_keyring rnd secret_key =
     \<lparr>secret = (case secret_key of None \<Rightarrow> rnd | Some k \<Rightarrow> if k = [] then rnd else k)\<rparr>"

definition sign :: "runtime \<Rightarrow> Keyring \<Rightarrow> PCCapToken \<Rightarrow> string" where
  "sign R K t = b64encode (hmac_sha256 R (secret K) (canonical_bytes R t))"

definition is_ascii :: "string \<Rightarrow> bool" where
  "is_ascii s = list_all (\<lambda>c. (of_char c :: nat) < 128) s"

text \<open>\<^verbatim>\<open>hmac.compare_digest\<close> on two texts: their equality, computed in constant time; it
  raises \<^verbatim>\<open>TypeError\<close> when one of them has a character that is not ASCII.\<close>

definition compare_digest :: "string \<Rightarrow> string \<Rightarrow> pyerror + bool" where
  "compare_digest a b = (if is_ascii a \<and> is_ascii b then Inr (a = b) else Inl TypeError)"

definition verify :: "runtime \<Rightarrow> Keyring \<Rightarrow> PCCapToken \<Rightarrow> pyerror + bool" where
  "verify R K t =
     (case signature t of
        None \<Rightarrow> Inr False
      | Some s \<Rightarrow> if s = [] then Inr False else compare_digest s (sign R K t))"

text \<open>An assignment \<^verbatim>\<open>token.f = v\<close> to one attribute that the signature covers, and the
  assignment that gives the attribute the value it has in \<open>orig\<close> back.\<close>

datatype field_mutation =
  SetTokenId string
| SetPrincipalSub string
| SetScope PCCapScope
| SetIssuedAt real
| SetExpiresAt real
| SetIssuedBy string
| SetPolicyId "string option"
| SetSingleUse bool
| SetNonce "string option"
| SetAlgorithm SignatureAlgorithm

fun mutate :: "field_mutation \<Rightarrow> PCCapToken \<Rightarrow> PCCapToken" where
  "mutate (SetTokenId v) t = t\<lparr>token_id := v\<rparr>"
| "mutate (SetPrincipalSub v) t = t\<lparr>principal_sub := v\<rparr>"
| "mutate (SetScope v) t = t\<lparr>scope := v\<rparr>"
| "mutate (SetIssuedAt v) t = t\<lparr>issued_at := v\<rparr>"
| "mutate (SetExpiresAt v) t = t\<lparr>expires_at := v\<rparr>"
| "mutate (SetIssuedBy v) t = t\<lparr>issued_by := v\<rparr>"
| "mutate (SetPolicyId v) t = t\<lparr>policy_id := v\<rparr>"
| "mutate (SetSingleUse v) t = t\<lparr>single_use := v\<rparr>"
| "mutate (SetNonce v) t = t\<lparr>nonce := v\<rparr>"
| "mutate (SetAlgorithm v) t = t\<lparr>algorithm := v\<rparr>"



subsection \<open>\<^verbatim>\<open>PCCapStore\<close>\<close>

text \<open>\<^verbatim>\<open>_tokens\<close> is a dict, that is an association list with distinct keys in insertion
  order; \<^verbatim>\<open>_used_tokens\<close> is a set.\<close>

record PCCapStore =
  tokens :: "(string, PCCapToken) alist"
  used_tokens :: "string set"

definition new_store :: PCCapStore where
  "new_store = \<lparr>tokens = DAList.empty, used_tokens = {}\<rparr>"

definition store :: "PCCapStore \<Rightarrow> PCCapToken \<Rightarrow> PCCapStore" where
  "store s t = s\<lparr>tokens := DAList.update (token_id t) t (tokens s)\<rparr>"

definition get :: "PCCapStore \<Rightarrow> string \<Rightarrow> PCCapToken option" where
  "get s tid = DAList.lookup (tokens s) tid"

text \<open>\<^verbatim>\<open>del self._tokens[tid]; self._used_tokens.discard(tid)\<close>.\<close>

definition forget :: "PCCapStore \<Rightarrow> string \<Rightarrow> PCCapStore" where
  "forget s tid = s\<lparr>tokens := DAList.delete tid (tokens s), used_tokens := used_tokens s - {tid}\<rparr>"

definition revoke :: "PCCapStore \<Rightarrow> string \<Rightarrow> bool \<times> PCCapStore" where
  "revoke s tid =
     (if DAList.lookup (tokens s) tid \<noteq> None then (True, forget s tid) else (False, s))"

definition mark_used :: "PCCapStore \<Rightarrow> string \<Rightarrow> bool \<times> PCCapStore" where
  "mark_used s tid =
     (if tid \<in> used_tokens s then (False, s)
      else (True, s\<lparr>used_tokens := insert tid (used_tokens s)\<rparr>))"

definition is_used :: "PCCapStore \<Rightarrow> string \<Rightarrow> bool" where
  "is_used s tid = (tid \<in> used_tokens s)"

definition cleanup_expired :: "PCCapStore \<Rightarrow> real \<Rightarrow> real option \<Rightarrow> nat \<times> PCCapStore" where
  "cleanup_expired s clock now =
     (let now' = (case now of None \<Rightarrow> clock | Some n \<Rightarrow> n);
          expired = map fst (filter (\<lambda>(tid, t). is_expired t clock (Some now'))
                                    (DAList.impl_of (tokens s)))
      in (length expired, foldl forget s expired))"

definition list_for_principal :: "PCCapStore \<Rightarrow> real \<Rightarrow> string \<Rightarrow> PCCapToken list" where
  "list_for_principal s clock psub =
     filter (\<lambda>t. principal_sub t = psub \<and> \<not> is_expired t clock (Some clock)
                 \<and> \<not> is_used s (token_id t))
            (map snd (DAList.impl_of (tokens s)))"

subsection \<open>Minting\<close>

text \<open>Modelled from the spec: the \<^verbatim>\<open>Principal\<close> value of \<^verbatim>\<open>assay_gateway.types\<close>, which is
  not among the sources: a subject identifier and an actor classification.\<close>

record Principal =
  sub :: string
  actor_type :: string

definition rstrip_eq :: "string \<Rightarrow> string" where
  "rstrip_eq s = rev (dropWhile (\<lambda>c. c = CHR ''='') (rev s))"

text \<open>\<open>rnd\<close> is the draw of \<^verbatim>\<open>os.urandom(12)\<close>.\<close>

definition generate_token_id :: "string \<Rightarrow> string" where
  "generate_token_id rnd = ''pccap_'' @ rstrip_eq (b64encode rnd)"

definition mint_pccap ::
  "runtime \<Rightarrow> real \<Rightarrow> string \<Rightarrow> string \<Rightarrow> Principal \<Rightarrow> PCCapScope \<Rightarrow> string \<Rightarrow> Keyring
     \<Rightarrow> int \<Rightarrow> string option \<Rightarrow> bool \<Rightarrow> PCCapToken" where
  "mint_pccap R now rnd_id rnd_nonce prin sc approver K ttl_seconds pol single =
     (let token = \<lparr>token_id = generate_token_id rnd_id,
                   principal_sub = sub prin,
                   scope = sc,
                   issued_at = now,
                   expires_at = now + real_of_int ttl_seconds,
                   issued_by = approver,
                   policy_id = pol,
                   single_use = single,
                   nonce = Some (rstrip_eq (b64encode rnd_nonce)),
                   signature = None,
                   algorithm = HMAC_SHA256\<rparr>
      in token\<lparr>signature := Some (sign R K token)\<rparr>)"

definition mint_pccap_fs_delete ::
  "runtime \<Rightarrow> real \<Rightarrow> string \<Rightarrow> string \<Rightarrow> Principal \<Rightarrow> string \<Rightarrow> string \<Rightarrow> Keyring
     \<Rightarrow> int \<Rightarrow> bool \<Rightarrow> PCCapToken" where
  "mint_pccap_fs_delete R now rnd_id rnd_nonce prin pfx approver K ttl_seconds single =
     mint_pccap R now rnd_id rnd_nonce prin
       \<lparr>tool_name = ''fs.delete'', allowed_args = [], path_prefix = Some (normpath pfx),
        max_bytes = None\<rparr>
       approver K ttl_seconds None single"

subsection \<open>Enforcement\<close>

datatype ReasonCodePCCap =
  DENY_PCCAP_EXPIRED
| DENY_PCCAP_SCOPE_MISMATCH
| DENY_PCCAP_SIGNATURE_INVALID
| DENY_PCCAP_PRINCIPAL_MISMATCH
| DENY_PCCAP_REPLAY
| ALLOW_PCCAP_VALID

fun code_value :: "ReasonCodePCCap \<Rightarrow> string" where
  "code_value DENY_PCCAP_EXPIRED = ''DENY_PCCAP_EXPIRED''"
| "code_value DENY_PCCAP_SCOPE_MISMATCH = ''DENY_PCCAP_SCOPE_MISMATCH''"
| "code_value DENY_PCCAP_SIGNATURE_INVALID = ''DENY_PCCAP_SIGNATURE_INVALID''"
| "code_value DENY_PCCAP_PRINCIPAL_MISMATCH = ''DENY_PCCAP_PRINCIPAL_MISMATCH''"
| "code_value DENY_PCCAP_REPLAY = ''DENY_PCCAP_REPLAY''"
| "code_value ALLOW_PCCAP_VALID = ''ALLOW_PCCAP_VALID''"

text \<open>\<open>clock\<close> is the reading of \<^verbatim>\<open>time.time()\<close> inside \<^verbatim>\<open>token.is_expired()\<close>. Of the reason
  text only the library call that can raise is kept: the expiry time is formatted for the
  message of the first denial.\<close>

definition enforce_pccap ::
  "runtime \<Rightarrow> real \<Rightarrow> Principal \<Rightarrow> string \<Rightarrow> arguments \<Rightarrow> PCCapToken \<Rightarrow> Keyring
     \<Rightarrow> pyerror + bool \<times> ReasonCodePCCap" where
  "enforce_pccap R clock prin tool args token K =
     (if is_expired token clock None then
        (case utc_isoformat R (expires_at token) of
           Inl e \<Rightarrow> Inl e
         | Inr stamp \<Rightarrow> Inr (False, DENY_PCCAP_EXPIRED))
      else
        (case verify R K token of
           Inl e \<Rightarrow> Inl e
         | Inr valid \<Rightarrow>
             if \<not> valid then Inr (False, DENY_PCCAP_SIGNATURE_INVALID)
             else if principal_sub token \<noteq> sub prin
               then Inr (False, DENY_PCCAP_PRINCIPAL_MISMATCH)
             else if \<not> fst (matches_request R (scope token) tool args)
               then Inr (False, DENY_PCCAP_SCOPE_MISMATCH)
             else Inr (True, ALLOW_PCCAP_VALID)))"

definition enforce_pccap_for_fs_delete ::
  "runtime \<Rightarrow> real \<Rightarrow> Principal \<Rightarrow> string \<Rightarrow> PCCapToken \<Rightarrow> Keyring
     \<Rightarrow> pyerror + bool \<times> ReasonCodePCCap" where
  "enforce_pccap_for_fs_delete R clock prin path token K =
     enforce_pccap R clock prin ''fs.delete'' [''path'' \<mapsto> PStr path] token K"

subsection \<open>\<^verbatim>\<open>PCCapPolicyEngine\<close>\<close>

record PCCapPolicyEngine =
  engine_keyring :: Keyring
  engine_store :: PCCapStore

definition new_engine :: "Keyring \<Rightarrow> PCCapStore option \<Rightarrow> PCCapPolicyEngine" where
  "new_engine K s =
     \<lparr>engine_keyring = K, engine_store = (case s of None \<Rightarrow> new_store | Some s' \<Rightarrow> s')\<rparr>"


text \<open>What follows a call of \<^verbatim>\<open>enforce_pccap\<close> in \<^verbatim>\<open>evaluate_with_pccap\<close> (lines 595 to
  602 and 628 to 634): a single-use token that was allowed is consumed, and the request
  is a replay when \<^verbatim>\<open>mark_used\<close> refuses.\<close>

definition consume_allowed ::
  "PCCapStore \<Rightarrow> PCCapToken \<Rightarrow> bool \<times> ReasonCodePCCap \<Rightarrow> (bool \<times> string) \<times> PCCapStore" where
  "consume_allowed s token r =
     (case r of (allowed, code) \<Rightarrow>
        if allowed \<and> single_use token then
          (case mark_used s (token_id token) of (fresh, s') \<Rightarrow>
             if \<not> fresh then ((False, code_value DENY_PCCAP_REPLAY), s')
             else ((allowed, code_value code), s'))
        else ((allowed, code_value code), s))"

text \<open>The loop of the branch without a token id (lines 581 to 608). \<open>clk i\<close> is the reading
  of the clock by the next call of \<^verbatim>\<open>enforce_pccap\<close>. An exception of \<^verbatim>\<open>enforce_pccap\<close>
  leaves the call, with the store as it was.\<close>

fun discover ::
  "runtime \<Rightarrow> Keyring \<Rightarrow> (nat \<Rightarrow> real) \<Rightarrow> nat \<Rightarrow> Principal \<Rightarrow> string \<Rightarrow> arguments
     \<Rightarrow> PCCapToken list \<Rightarrow> PCCapStore \<Rightarrow> (pyerror + bool \<times> string) \<times> PCCapStore" where
  "discover R K clk i prin tool args [] s = (Inr (False, ''DENY_NO_PCCAP''), s)"
| "discover R K clk i prin tool args (t # ts) s =
     (if single_use t \<and> is_used s (token_id t) then discover R K clk i prin tool args ts s
      else if fst (matches_request R (scope t) tool args) then
        (if single_use t \<and> is_used s (token_id t)
           then (Inr (False, code_value DENY_PCCAP_REPLAY), s)
         else
           (case enforce_pccap R (clk i) prin tool args t K of
              Inl e \<Rightarrow> (Inl e, s)
            | Inr (allowed, code) \<Rightarrow>
                if allowed then
                  (case consume_allowed s t (allowed, code) of (r, s') \<Rightarrow> (Inr r, s'))
                else discover R K clk (Suc i) prin tool args ts s))
      else discover R K clk i prin tool args ts s)"

text \<open>\<open>clk 0\<close>, \<open>clk 1\<close>, ... are the successive readings of \<^verbatim>\<open>time.time()\<close> during the call.\<close>

definition evaluate_with_pccap ::
  "runtime \<Rightarrow> PCCapPolicyEngine \<Rightarrow> (nat \<Rightarrow> real) \<Rightarrow> Principal \<Rightarrow> string \<Rightarrow> arguments
     \<Rightarrow> string option \<Rightarrow> (pyerror + bool \<times> string) \<times> PCCapPolicyEngine" where
  "evaluate_with_pccap R E clk prin tool args tid_opt =
     (let s = engine_store E; K = engine_keyring E in
      if tid_opt = None \<or> tid_opt = Some [] then
        (case discover R K clk 1 prin tool args
                (list_for_principal s (clk 0) (sub prin)) s of
           (r, s') \<Rightarrow> (r, E\<lparr>engine_store := s'\<rparr>))
      else
        (case get s (the tid_opt) of
           None \<Rightarrow> (Inr (False, ''DENY_PCCAP_NOT_FOUND''), E)
         | Some token \<Rightarrow>
             if single_use token \<and> is_used s (token_id token)
               then (Inr (False, code_value DENY_PCCAP_REPLAY), E)
             else
               (case enforce_pccap R (clk 0) prin tool args token K of
                  Inl e \<Rightarrow> (Inl e, E)
                | Inr enforced \<Rightarrow>
                    (case consume_allowed s token enforced of
                       (r, s') \<Rightarrow> (Inr r, E\<lparr>engine_store := s'\<rparr>)))))"

definition engine_revoke :: "PCCapPolicyEngine \<Rightarrow> string \<Rightarrow> bool \<times> PCCapPolicyEngine" where
  "engine_revoke E tid =
     (case revoke (engine_store E) tid of (r, s') \<Rightarrow> (r, E\<lparr>engine_store := s'\<rparr>))"

definition cleanup :: "PCCapPolicyEngine \<Rightarrow> real \<Rightarrow> nat \<times> PCCapPolicyEngine" where
  "cleanup E clock =
     (case cleanup_expired (engine_store E) clock None of (n, s') \<Rightarrow> (n, E\<lparr>engine_store := s'\<rparr>))"



subsection \<open>Fixtures\<close>

text \<open>A token as the test suite builds them: for \<^verbatim>\<open>agent@test.com\<close>, approved by
  \<^verbatim>\<open>admin@test.com\<close>, scoped to \<^verbatim>\<open>fs.delete\<close> under \<^verbatim>\<open>/tmp/scratch\<close>, not yet signed.\<close>

definition fixture_token :: "string \<Rightarrow> real \<Rightarrow> bool \<Rightarrow> PCCapToken" where
  "fixture_token tid expiry single =
     \<lparr>token_id = tid, principal_sub = ''agent@test.com'',
      scope = \<lparr>tool_name = ''fs.delete'', allowed_args = [], path_prefix = Some ''/tmp/scratch'',
               max_bytes = None\<rparr>,
      issued_at = 1000, expires_at = expiry, issued_by = ''admin@test.com'', policy_id = None,
      single_use = single, nonce = Some ''n0'', signature = None, algorithm = HMAC_SHA256\<rparr>"


text \<open>Stand-ins for the library functions, for running examples: a serialiser that
  writes the tree out field by field, a keyed digest that is the key followed by the
  message, and a formatter of timestamps with the range of \<^verbatim>\<open>datetime\<close>, from the first
  second of the year 1 to the last of the year 9999.\<close>

fun render_scalar :: "jsonval \<Rightarrow> string" where
  "render_scalar JNull = ''null''"
| "render_scalar (JBool b) = (if b then ''true'' else ''false'')"
| "render_scalar (JInt n) = str_int n"
| "render_scalar (JStr s) = CHR 0x22 # s @ [CHR 0x22]"

fun render_json :: "json \<Rightarrow> string" where
  "render_json (JScalar v) = render_scalar v"
| "render_json (JFloat x) = str_int \<lfloor>x\<rfloor>"
| "render_json (JObject kvs) =
     CHR ''{'' # concat (map (\<lambda>kv. fst kv @ '':'' @ render_json (snd kv) @ '','') kvs) @ ''}''"

definition test_runtime :: runtime where
  "test_runtime =
     \<lparr>getcwd = ''/home/agent'', json_dumps = render_json,
      hmac_sha256 = (\<lambda>key msg. key @ msg),
      utc_isoformat = (\<lambda>ts. if ts < - 62135596800 \<or> 253402300800 \<le> ts then Inl ValueError
                             else Inr (str_int \<lfloor>ts\<rfloor>))\<rparr>"

definition test_keyring :: Keyring where
  "test_keyring = \<lparr>secret = ''test-secret-key-32-bytes-long!!''\<rparr>"

definition test_principal :: Principal where
  "test_principal = \<lparr>sub = ''agent@test.com'', actor_type = ''agent''\<rparr>"

text \<open>The fixture token signed with the test keyring, as \<^verbatim>\<open>mint_pccap\<close> signs.\<close>

definition signed_fixture :: "string \<Rightarrow> real \<Rightarrow> bool \<Rightarrow> PCCapToken" where
  "signed_fixture tid expiry single =
     (fixture_token tid expiry single)
       \<lparr>signature := Some (sign test_runtime test_keyring (fixture_token tid expiry single))\<rparr>"

section \<open>Properties\<close>

subsection \<open>The store\<close>

lemma get_forget: "get (forget s k) tid = (if tid = k then None else get s tid)"
  by (simp add: get_def forget_def)

lemma is_used_forget: "is_used (forget s k) tid = (tid \<noteq> k \<and> is_used s tid)"
  by (auto simp add: is_used_def forget_def)

lemma get_foldl_forget: "get (foldl forget s ks) tid = (if tid \<in> set ks then None else get s tid)"
  by (induction ks arbitrary: s) (auto simp add: get_forget)

lemma is_used_foldl_forget: "is_used (foldl forget s ks) tid = (tid \<notin> set ks \<and> is_used s tid)"
  by (induction ks arbitrary: s) (auto simp add: is_used_forget)

lemma get_store: "get (store s t) tid = (if tid = token_id t then Some t else get s tid)"
  by (auto simp add: get_def store_def DAList.lookup_update)


lemma get_new_store: "get new_store tid = None"
  by (simp add: get_def new_store_def)

lemma is_used_new_store: "is_used new_store tid = False"
  by (simp add: is_used_def new_store_def)

lemma set_filter_keys:
  "set (map fst (filter (\<lambda>(tid, t). P t) (DAList.impl_of (tokens s))))
     = {tid. \<exists>t. get s tid = Some t \<and> P t}"
proof -
  have d: "distinct (map fst (DAList.impl_of (tokens s)))" by simp
  have "\<And>tid t. ((tid, t) \<in> set (DAList.impl_of (tokens s))) = (get s tid = Some t)"
    using d by (simp add: get_def DAList.lookup.rep_eq)
  then show ?thesis
    by (auto simp add: image_iff)
qed

lemma distinct_filter_keys:
  "distinct (map fst (filter (\<lambda>(tid, t). P t) (DAList.impl_of (tokens s))))"
  by (rule DAList.distinct_map_fst_filter) simp

lemma cleanup_expired_result:
  assumes "cleanup_expired s clock now = (n, s')"
  shows "get s' tid = (case get s tid of None \<Rightarrow> None
                        | Some t \<Rightarrow> if is_expired t clock now then None else Some t)"
    and "is_used s' tid = (is_used s tid \<and> \<not> (\<exists>t. get s tid = Some t \<and> is_expired t clock now))"
    and "n = card {k. \<exists>t. get s k = Some t \<and> is_expired t clock now}"
proof -
  let ?ks = "map fst (filter (\<lambda>(tid, t). is_expired t clock now) (DAList.impl_of (tokens s)))"
  have same: "\<And>t. is_expired t clock (Some (case now of None \<Rightarrow> clock | Some x \<Rightarrow> x))
                 = is_expired t clock now"
    by (simp add: is_expired_def)
  have eq: "n = length ?ks" "s' = foldl forget s ?ks"
    using assms by (simp_all add: cleanup_expired_def Let_def same)
  show "get s' tid = (case get s tid of None \<Rightarrow> None
                        | Some t \<Rightarrow> if is_expired t clock now then None else Some t)"
    unfolding eq get_foldl_forget set_filter_keys by (auto split: option.splits)
  show "is_used s' tid = (is_used s tid \<and> \<not> (\<exists>t. get s tid = Some t \<and> is_expired t clock now))"
    unfolding eq is_used_foldl_forget set_filter_keys by auto
  show "n = card {k. \<exists>t. get s k = Some t \<and> is_expired t clock now}"
  proof -
    have "length ?ks = card (set ?ks)"
      by (rule distinct_card[symmetric]) (rule distinct_filter_keys)
    then show ?thesis
      unfolding eq set_filter_keys .
  qed
qed

lemma revoke_result:
  assumes "revoke s tid = (r, s')"
  shows "r = (get s tid \<noteq> None)"
    and "get s' k = (if k = tid then None else get s k)"
    and "is_used s' k = (is_used s k \<and> (k = tid \<longrightarrow> get s tid = None))"
    and "get s tid = None \<Longrightarrow> s' = s"
    and "revoke s' tid = (False, s')"
  using assms
  by (auto simp add: revoke_def get_def forget_def is_used_def split: if_splits)



text \<open>
  Claim C6, as amended. \<^verbatim>\<open>revoke(token_id)\<close> reports whether the issued map held the id.
  When it did, the id is removed from the issued map and from the consumed set; when it
  did not, the store is left as it is, so an id that is only in the consumed set stays
  consumed. No other id is touched, and a second \<^verbatim>\<open>revoke\<close> of the same id reports
  \<^verbatim>\<open>False\<close> and changes nothing.
\<close>

theorem revoke_removes_stored_token:
  "revoke s tid = (r, s') \<Longrightarrow>
     r = (get s tid \<noteq> None)
     \<and> (\<forall>k. get s' k = (if k = tid then None else get s k))
     \<and> (\<forall>k. is_used s' k = (is_used s k \<and> (k = tid \<longrightarrow> get s tid = None)))
     \<and> (get s tid = None \<longrightarrow> s' = s)
     \<and> revoke s' tid = (False, s')"
  using revoke_result[of s tid r s'] by blast

theorem revoke_removes_stored_token_witness:
  "revoke (snd (mark_used (store new_store (fixture_token ''t1'' 2000 True)) ''t1'')) ''t1''
     = (True, new_store)
   \<and> get new_store ''t1'' = None \<and> \<not> is_used new_store ''t1''
   \<and> revoke new_store ''t1'' = (False, new_store)"
proof -
  have r: "revoke (snd (mark_used (store new_store (fixture_token ''t1'' 2000 True)) ''t1'')) ''t1''
             = (True, new_store)"
    by (simp add: revoke_def mark_used_def store_def new_store_def forget_def fixture_token_def
        DAList.alist_eq_iff DAList.delete.rep_eq DAList.update.rep_eq DAList.empty.rep_eq
        DAList.lookup.rep_eq)
  show ?thesis
    using revoke_removes_stored_token[OF r] r by (simp add: get_new_store is_used_new_store)
qed


text \<open>
  Claim C6 as stated fails where the id is in the consumed set and not in the issued
  map: after \<^verbatim>\<open>PCCapStore().mark_used("pccap_x")\<close>, \<^verbatim>\<open>revoke("pccap_x")\<close> returns \<^verbatim>\<open>False\<close> and
  the id is still consumed.
\<close>

theorem revoke_consumed_only_counterexample:
  "is_used (snd (mark_used new_store ''pccap_x'')) ''pccap_x''
   \<and> get (snd (mark_used new_store ''pccap_x'')) ''pccap_x'' = None
   \<and> revoke (snd (mark_used new_store ''pccap_x'')) ''pccap_x''
       = (False, snd (mark_used new_store ''pccap_x''))
   \<and> is_used (snd (revoke (snd (mark_used new_store ''pccap_x'')) ''pccap_x'')) ''pccap_x''"
  by (simp add: revoke_def mark_used_def new_store_def is_used_def get_def)


text \<open>
  Claim C8. \<^verbatim>\<open>cleanup_expired(now)\<close> removes exactly the ids whose token has
  \<^verbatim>\<open>now >= expires_at\<close> from the issued map and from the consumed set, returns their
  number, and leaves every other id as it was in both, consumed or not. With an expired
  and a valid token stored, it returns 1, the expired id is no longer retrievable and the
  valid one still is.
\<close>

theorem cleanup_expired_removes_exactly_expired:
  "cleanup_expired s clock now = (n, s') \<Longrightarrow>
     (\<forall>tid. get s' tid = (case get s tid of None \<Rightarrow> None
                          | Some t \<Rightarrow> if is_expired t clock now then None else Some t))
     \<and> (\<forall>tid. is_used s' tid
            = (is_used s tid \<and> \<not> (\<exists>t. get s tid = Some t \<and> is_expired t clock now)))
     \<and> n = card {tid. \<exists>t. get s tid = Some t \<and> is_expired t clock now}
     \<and> (\<forall>e v. s = store (store new_store e) v \<and> token_id e \<noteq> token_id v
               \<and> is_expired e clock now \<and> \<not> is_expired v clock now
           \<longrightarrow> n = 1 \<and> get s' (token_id e) = None \<and> get s' (token_id v) = Some v)"
proof -
  assume c: "cleanup_expired s clock now = (n, s')"
  note res = cleanup_expired_result[OF c]
  have sc: "n = 1 \<and> get s' (token_id e) = None \<and> get s' (token_id v) = Some v"
    if h: "s = store (store new_store e) v \<and> token_id e \<noteq> token_id v
           \<and> is_expired e clock now \<and> \<not> is_expired v clock now" for e v
  proof -
    have "{tid. \<exists>t. get s tid = Some t \<and> is_expired t clock now} = {token_id e}"
      using h by (auto simp add: get_store get_new_store split: if_splits)
    then have "n = 1" using res(3) by simp
    moreover have "get s' (token_id e) = None" "get s' (token_id v) = Some v"
      using h by (simp_all add: res(1) get_store get_new_store)
    ultimately show ?thesis by simp
  qed
  show ?thesis using res sc by blast
qed

theorem cleanup_expired_removes_exactly_expired_witness:
  "cleanup_expired (store (store new_store (fixture_token ''old'' 1000 True))
                          (fixture_token ''live'' 2000 True)) 1500 None
     = (1, store new_store (fixture_token ''live'' 2000 True))
   \<and> is_expired (fixture_token ''old'' 1000 True) 1500 None
   \<and> \<not> is_expired (fixture_token ''live'' 2000 True) 1500 None
   \<and> get (store new_store (fixture_token ''live'' 2000 True)) ''old'' = None
   \<and> get (store new_store (fixture_token ''live'' 2000 True)) ''live''
       = Some (fixture_token ''live'' 2000 True)"
proof -
  let ?e = "fixture_token ''old'' 1000 True" and ?v = "fixture_token ''live'' 2000 True"
  have c: "cleanup_expired (store (store new_store ?e) ?v) 1500 None = (1, store new_store ?v)"
    by (simp add: cleanup_expired_def store_def new_store_def forget_def
        fixture_token_def is_expired_def
        DAList.alist_eq_iff DAList.delete.rep_eq DAList.update.rep_eq DAList.empty.rep_eq)
  have h: "store (store new_store ?e) ?v = store (store new_store ?e) ?v
           \<and> token_id ?e \<noteq> token_id ?v \<and> is_expired ?e 1500 None \<and> \<not> is_expired ?v 1500 None"
    by (simp add: fixture_token_def is_expired_def)
  from cleanup_expired_removes_exactly_expired[OF c] h
  have "get (store new_store ?v) (token_id ?e) = None
        \<and> get (store new_store ?v) (token_id ?v) = Some ?v"
    by blast
  then show ?thesis using c h by (simp add: fixture_token_def)
qed



subsection \<open>Base64 is injective\<close>

lemma b64encode_eq_Nil: "(b64encode xs = []) = (xs = [])"
  by (cases xs rule: b64encode.cases) (simp_all add: b64_group_def Let_def)


lemma b64_alphabet_length: "length b64_alphabet = 64"
  by (simp add: b64_alphabet_def)














lemma b64_group_chars:
  "b64_group a b c = [b64_char (group_value a b c div 262144),
      b64_char (group_value a b c div 4096), b64_char (group_value a b c div 64),
      b64_char (group_value a b c)]"
  by (simp add: b64_group_def Let_def)





lemma b64_char_ascii: "(of_char (b64_char n) :: nat) < 128"
proof -
  have "b64_char n \<in> set b64_alphabet"
    unfolding b64_char_def by (rule nth_mem) (simp add: b64_alphabet_length)
  moreover have "\<forall>c \<in> set b64_alphabet. (of_char c :: nat) < 128"
    by (simp add: b64_alphabet_def)
  ultimately show ?thesis by blast
qed

lemma b64encode_ascii: "is_ascii (b64encode xs)"
  by (induction xs rule: b64encode.induct)
     (simp_all add: is_ascii_def b64_group_chars b64_char_ascii)

subsection \<open>Signing and the fixtures\<close>

lemma sign_ignores_signature: "sign R K (t\<lparr>signature := s\<rparr>) = sign R K t"
  by (simp add: sign_def canonical_bytes_def to_dict_def split: option.splits)

lemma sign_ascii: "is_ascii (sign R K t)"
  by (simp add: sign_def b64encode_ascii)

lemma verify_signed:
  "hmac_sha256 R (secret K) (canonical_bytes R t) \<noteq> [] \<Longrightarrow>
     verify R K (t\<lparr>signature := Some (sign R K t)\<rparr>) = Inr True"
  by (simp add: verify_def compare_digest_def sign_ignores_signature sign_ascii)
     (simp add: sign_def b64encode_eq_Nil)

lemma verify_signed_fixture:
  "verify test_runtime test_keyring (signed_fixture tid expiry single) = Inr True"
  unfolding signed_fixture_def
  by (rule verify_signed) (simp add: test_runtime_def test_keyring_def)

lemma code_value_inject: "(code_value a = code_value b) = (a = b)"
  by (cases a; cases b) simp_all

lemma code_value_not_found: "code_value c \<noteq> ''DENY_PCCAP_NOT_FOUND''"
  by (cases c) simp_all

lemmas path_defs = matches_request_def check_path_prefix_def check_path_text_def
  path_argument_def py_or_def args_get_def purepath_parts_def initial_slashes_def
  startswith_def endswith_def normpath_def normpath_step_def abspath_def isabs_def
  path_join_def commonpath_def path_components_def check_max_bytes_def Let_def

lemma fixture_matches:
  "matches_request test_runtime (scope (signed_fixture tid expiry single)) ''fs.delete''
     [''path'' \<mapsto> PStr ''/tmp/scratch/file.txt''] = (True, None)"
  by (simp add: path_defs signed_fixture_def fixture_token_def test_runtime_def)

lemma fixture_rejects:
  "matches_request test_runtime (scope (signed_fixture tid expiry single)) ''fs.delete''
     [''path'' \<mapsto> PStr ''/etc/passwd''] = (False, Some NotUnderPrefix)"
  by (simp add: path_defs signed_fixture_def fixture_token_def test_runtime_def)

lemma fixture_fields:
  "token_id (signed_fixture tid expiry single) = tid"
  "expires_at (signed_fixture tid expiry single) = expiry"
  "single_use (signed_fixture tid expiry single) = single"
  "principal_sub (signed_fixture tid expiry single) = ''agent@test.com''"
  by (simp_all add: signed_fixture_def fixture_token_def)

lemma fixture_enforced:
  "clock < expiry \<Longrightarrow>
   enforce_pccap test_runtime clock test_principal ''fs.delete''
      [''path'' \<mapsto> PStr ''/tmp/scratch/file.txt''] (signed_fixture tid expiry single) test_keyring
     = Inr (True, ALLOW_PCCAP_VALID)"
  by (simp add: enforce_pccap_def is_expired_def verify_signed_fixture fixture_fields
      fixture_matches test_principal_def)

subsection \<open>Verification\<close>






lemma mutate_commutes_signature:
  "mutate m (t\<lparr>signature := s\<rparr>) = (mutate m t)\<lparr>signature := s\<rparr>"
  by (cases m) simp_all






subsection \<open>Paths\<close>

lemma split_on_not_Nil: "split_on c s \<noteq> []"
  by (induction s) (auto split: list.splits)

lemma split_on_no_sep: "w \<in> set (split_on c s) \<Longrightarrow> c \<notin> set w"
proof (induction s arbitrary: w)
  case Nil
  then show ?case by simp
next
  case (Cons x xs)
  then show ?case
    by (cases "split_on c xs") (auto simp add: split_on_not_Nil split: if_splits)
qed

lemma split_on_word: "c \<notin> set w \<Longrightarrow> split_on c w = [w]"
  by (induction w) auto

lemma split_on_append_sep:
  "c \<notin> set w \<Longrightarrow> split_on c (w @ c # s) = w # split_on c s"
  by (induction w) auto

lemma split_on_join:
  "ws \<noteq> [] \<Longrightarrow> \<forall>w \<in> set ws. c \<notin> set w \<Longrightarrow> split_on c (join_with [c] ws) = ws"
proof (induction "[c]" ws rule: join_with.induct)
  case 1
  then show ?case by simp
next
  case (2 w)
  then show ?case by (simp add: split_on_word)
next
  case (3 w v ws)
  then show ?case by (simp add: split_on_append_sep)
qed

lemma path_components_good: "w \<in> set (path_components p) \<Longrightarrow> good_component w"
  by (auto simp add: path_components_def good_component_def dest: split_on_no_sep)

lemma path_components_join:
  assumes "\<forall>w \<in> set ws. good_component w"
  shows "path_components (join_with ''/'' ws) = ws"
    and "path_components (''/'' @ join_with ''/'' ws) = ws"
proof -
  have f: "filter (\<lambda>c. c \<noteq> [] \<and> c \<noteq> ''.'') ws = ws"
    using assms by (auto simp add: good_component_def filter_id_conv)
  have s: "split_on CHR ''/'' (join_with ''/'' ws) = (if ws = [] then [[]] else ws)"
    using assms split_on_join[of ws "CHR ''/''"] by (auto simp add: good_component_def)
  show "path_components (join_with ''/'' ws) = ws"
    using f s by (simp add: path_components_def)
  show "path_components (''/'' @ join_with ''/'' ws) = ws"
    using f s by (simp add: path_components_def)
qed

lemma common_components_Nil2: "common_components xs [] = []"
  by (cases xs) simp_all

lemma common_components_commute: "common_components xs ys = common_components ys xs"
  by (induction xs ys rule: common_components.induct) (auto simp add: common_components_Nil2)

lemma common_components_prefix: "prefix (common_components xs ys) xs"
  by (induction xs ys rule: common_components.induct) auto

lemma common_components_eq: "(common_components xs ys = xs) = prefix xs ys"
  by (induction xs ys rule: common_components.induct) auto

lemma common_components_min_max:
  "common_components (min xs ys) (max xs ys) = common_components xs ys"
  by (cases "xs \<le> ys") (simp_all add: min_def max_def common_components_commute)


lemma common_components_good:
  "w \<in> set (common_components (path_components a) ys) \<Longrightarrow> good_component w"
  using common_components_prefix[of "path_components a" ys] path_components_good
  by (meson set_mono_prefix subsetD)

lemma commonpath_eq_second:
  assumes "commonpath a b = Inr b"
  shows "prefix (path_components b) (path_components a)"
proof -
  let ?cm = "common_components (path_components a) (path_components b)"
  have g: "\<forall>w \<in> set ?cm. good_component w"
    using common_components_good by blast
  have b: "b = (if isabs a then ''/'' else []) @ join_with ''/'' ?cm"
    using assms
    by (simp add: commonpath_def Let_def common_components_min_max split: if_splits)
  have "path_components b = ?cm"
    using path_components_join[OF g] by (subst b) (simp split: if_splits)
  then show ?thesis
    using common_components_prefix[of "path_components a" "path_components b"] by simp
qed

lemma commonpath_under:
  assumes "isabs a" "isabs b" "b = ''/'' @ join_with ''/'' (path_components b)"
    and "prefix (path_components b) (path_components a)"
  shows "commonpath a b = Inr b"
proof -
  have "common_components (path_components a) (path_components b) = path_components b"
    using assms(4) by (simp add: common_components_commute[of "path_components a"]
        common_components_eq)
  then show ?thesis
    using assms(1,2,3)
    by (simp add: commonpath_def Let_def common_components_min_max)
qed

lemma commonpath_raises: "commonpath p q = Inl e \<Longrightarrow> e = ValueError"
  by (simp add: commonpath_def Let_def split: if_splits)

lemma check_path_text_None:
  "(check_path_text R pfx s = None) =
     (''..'' \<notin> set (purepath_parts s) \<and> ''..'' \<notin> set (purepath_parts (normpath s))
      \<and> commonpath (abspath R (normpath s)) (abspath R (normpath pfx))
          = Inr (abspath R (normpath pfx)))"
  by (auto simp add: check_path_text_def Let_def split: sum.splits pyerror.splits)


lemma normpath_step_good:
  assumes "\<forall>w \<in> set acc. good_component w" and "CHR ''/'' \<notin> set c"
  shows "\<forall>w \<in> set (normpath_step k acc c). good_component w"
  using assms
  by (auto simp add: normpath_step_def good_component_def dest: in_set_butlastD)

lemma foldl_normpath_step_good:
  "\<forall>w \<in> set acc. good_component w \<Longrightarrow> \<forall>c \<in> set cs. CHR ''/'' \<notin> set c \<Longrightarrow>
   \<forall>w \<in> set (foldl (normpath_step k) acc cs). good_component w"
proof (induction cs arbitrary: acc)
  case Nil
  then show ?case by simp
next
  case (Cons c cs)
  have "\<forall>w \<in> set (normpath_step k acc c). good_component w"
    using Cons.prems by (intro normpath_step_good) auto
  then show ?case using Cons.IH Cons.prems(2) by simp
qed

lemma normpath_components_good:
  "\<forall>w \<in> set (foldl (normpath_step k) [] (split_on CHR ''/'' p)). good_component w"
  by (rule foldl_normpath_step_good) (auto dest: split_on_no_sep)

lemma join_good_no_slash:
  assumes "\<forall>w \<in> set ws. good_component w"
  shows "\<not> startswith (join_with ''/'' ws) ''/''"
proof (cases ws)
  case Nil
  then show ?thesis by (simp add: startswith_def)
next
  case (Cons w rest)
  then obtain x xs where w: "w = x # xs" "x \<noteq> CHR ''/''"
    using assms by (cases w) (auto simp add: good_component_def)
  show ?thesis
    using Cons w by (cases rest) (simp_all add: startswith_def)
qed

lemma normpath_single_slash:
  assumes "initial_slashes (normpath x) = 1"
  shows "normpath x = ''/'' @ join_with ''/'' (path_components (normpath x))"
proof -
  let ?k = "initial_slashes x"
  let ?ws = "foldl (normpath_step ?k) [] (split_on CHR ''/'' x)"
  let ?j = "join_with ''/'' ?ws"
  have g: "\<forall>w \<in> set ?ws. good_component w" by (rule normpath_components_good)
  have nj: "\<not> startswith ?j ''/''" using g by (rule join_good_no_slash)
  have dot: "initial_slashes ''.'' = 0" by (simp add: initial_slashes_def startswith_def)
  have k: "?k = 0 \<or> ?k = 1 \<or> ?k = 2" by (simp add: initial_slashes_def)
  have n: "normpath x \<noteq> ''.''" using assms dot by auto
  then have form: "x \<noteq> [] \<and> normpath x = (if ?k \<noteq> 0 then replicate ?k CHR ''/'' @ ?j else ?j)"
    by (auto simp add: normpath_def Let_def split: if_splits)
  from k show ?thesis
  proof (elim disjE)
    assume "?k = 0"
    then have "normpath x = ?j" using form by simp
    then have "initial_slashes (normpath x) = 0"
      using nj by (simp add: initial_slashes_def)
    then show ?thesis using assms by simp
  next
    assume k1: "?k = 1"
    then have e: "normpath x = ''/'' @ ?j" using form by simp
    have "path_components (''/'' @ ?j) = ?ws" using g by (rule path_components_join(2))
    then show ?thesis using e by simp
  next
    assume "?k = 2"
    then have e: "normpath x = ''//'' @ ?j" using form by (simp add: numeral_2_eq_2)
    have "initial_slashes (''//'' @ ?j) = 2"
      using nj by (cases ?j) (auto simp add: initial_slashes_def startswith_def)
    then show ?thesis using assms e by simp
  qed
qed

lemma isabs_normpath: "isabs x \<Longrightarrow> isabs (normpath x)"
proof -
  assume a: "isabs x"
  then have k: "initial_slashes x \<noteq> 0" "x \<noteq> []"
    by (auto simp add: initial_slashes_def isabs_def startswith_def)
  then obtain n where n: "initial_slashes x = Suc n" by (cases "initial_slashes x") auto
  show ?thesis
    using k by (simp add: normpath_def Let_def isabs_def startswith_def n)
qed

lemma isabs_abspath: "isabs (getcwd R) \<Longrightarrow> isabs (abspath R q)"
proof -
  assume c: "isabs (getcwd R)"
  have "isabs (path_join (getcwd R) q)" if "\<not> isabs q"
    using c that by (cases "getcwd R") (auto simp add: path_join_def isabs_def startswith_def)
  then show ?thesis
    unfolding abspath_def by (auto intro: isabs_normpath)
qed


lemma check_path_text_traversal:
  "''..'' \<in> set (purepath_parts s) \<or> ''..'' \<in> set (purepath_parts (normpath s)) \<Longrightarrow>
   check_path_text R pfx s = Some PathTraversal"
  by (auto simp add: check_path_text_def Let_def)

lemma check_path_text_sound:
  "check_path_text R pfx s = None \<Longrightarrow>
   prefix (path_components (abspath R (normpath pfx)))
          (path_components (abspath R (normpath s)))"
  by (simp add: check_path_text_None commonpath_eq_second)

lemma check_path_text_value_error:
  "commonpath (abspath R (normpath s)) (abspath R (normpath pfx)) = Inl ValueError \<Longrightarrow>
   check_path_text R pfx s \<noteq> None"
  by (simp add: check_path_text_None)

lemma check_path_text_complete:
  assumes "''..'' \<notin> set (purepath_parts s)" "''..'' \<notin> set (purepath_parts (normpath s))"
    and "isabs (getcwd R)"
    and "initial_slashes (abspath R (normpath pfx)) = 1"
    and "prefix (path_components (abspath R (normpath pfx)))
                (path_components (abspath R (normpath s)))"
  shows "check_path_text R pfx s = None"
proof -
  let ?a = "abspath R (normpath s)" and ?b = "abspath R (normpath pfx)"
  have "?b = ''/'' @ join_with ''/'' (path_components ?b)"
    using assms(4) unfolding abspath_def by (rule normpath_single_slash)
  then have "commonpath ?a ?b = Inr ?b"
    using assms(3,5) by (intro commonpath_under isabs_abspath)
  then show ?thesis using assms(1,2) by (simp add: check_path_text_None)
qed

lemma check_path_text_double_slash:
  assumes "initial_slashes (abspath R (normpath pfx)) = 2"
  shows "check_path_text R pfx s \<noteq> None"
proof
  let ?a = "abspath R (normpath s)" and ?b = "abspath R (normpath pfx)"
  let ?cm = "common_components (path_components ?a) (path_components ?b)"
  assume "check_path_text R pfx s = None"
  then have c: "commonpath ?a ?b = Inr ?b" by (simp add: check_path_text_None)
  have "isabs ?b" using assms by (auto simp add: initial_slashes_def isabs_def split: if_splits)
  then have b: "?b = ''/'' @ join_with ''/'' ?cm"
    using c by (simp add: commonpath_def Let_def common_components_min_max split: if_splits)
  have "\<not> startswith (join_with ''/'' ?cm) ''/''"
    by (rule join_good_no_slash) (use common_components_good in blast)
  then have "initial_slashes (''/'' @ join_with ''/'' ?cm) = 1"
    by (cases "join_with ''/'' ?cm") (auto simp add: initial_slashes_def startswith_def)
  then show False using assms b by simp
qed

lemma matches_request_path_check:
  "fst (matches_request R sc tool args) \<Longrightarrow> check_path_prefix R (path_prefix sc) args = None"
  by (auto simp add: matches_request_def split: if_splits option.splits)

text \<open>The path check of a request, for a scope with a prefix and a request whose path
  argument is truthy: a parent-directory segment in the raw or the normalised path
  rejects; an accepted path lies, component by component, under the prefix; a
  \<^verbatim>\<open>ValueError\<close> of \<^verbatim>\<open>commonpath\<close> rejects; and a path under a prefix whose absolute form
  starts with one slash is accepted.\<close>

lemma path_check_summary:
  assumes "path_prefix sc = Some pfx" and "py_truthy (path_argument args)"
  shows "''..'' \<in> set (purepath_parts (py_str (path_argument args)))
           \<or> ''..'' \<in> set (purepath_parts (normpath (py_str (path_argument args))))
         \<Longrightarrow> \<not> fst (matches_request R sc tool args)"
    and "fst (matches_request R sc tool args) \<Longrightarrow>
         prefix (path_components (abspath R (normpath pfx)))
                (path_components (abspath R (normpath (py_str (path_argument args)))))"
    and "commonpath (abspath R (normpath (py_str (path_argument args))))
                    (abspath R (normpath pfx)) = Inl ValueError
         \<Longrightarrow> \<not> fst (matches_request R sc tool args)"
    and "''..'' \<notin> set (purepath_parts (py_str (path_argument args))) \<Longrightarrow>
         ''..'' \<notin> set (purepath_parts (normpath (py_str (path_argument args)))) \<Longrightarrow>
         isabs (getcwd R) \<Longrightarrow> initial_slashes (abspath R (normpath pfx)) = 1 \<Longrightarrow>
         prefix (path_components (abspath R (normpath pfx)))
                (path_components (abspath R (normpath (py_str (path_argument args))))) \<Longrightarrow>
         check_path_prefix R (path_prefix sc) args = None"
proof -
  have c: "check_path_prefix R (path_prefix sc) args
             = check_path_text R pfx (py_str (path_argument args))"
    using assms by (simp add: check_path_prefix_def Let_def)
  show "''..'' \<in> set (purepath_parts (py_str (path_argument args)))
           \<or> ''..'' \<in> set (purepath_parts (normpath (py_str (path_argument args))))
         \<Longrightarrow> \<not> fst (matches_request R sc tool args)"
    using matches_request_path_check[of R sc tool args] c
      check_path_text_traversal[of "py_str (path_argument args)" R pfx]
    by auto
  show "fst (matches_request R sc tool args) \<Longrightarrow>
         prefix (path_components (abspath R (normpath pfx)))
                (path_components (abspath R (normpath (py_str (path_argument args)))))"
    using matches_request_path_check[of R sc tool args] c check_path_text_sound by auto
  show "commonpath (abspath R (normpath (py_str (path_argument args))))
                    (abspath R (normpath pfx)) = Inl ValueError
         \<Longrightarrow> \<not> fst (matches_request R sc tool args)"
    using matches_request_path_check[of R sc tool args] c check_path_text_value_error by auto
  show "''..'' \<notin> set (purepath_parts (py_str (path_argument args))) \<Longrightarrow>
         ''..'' \<notin> set (purepath_parts (normpath (py_str (path_argument args)))) \<Longrightarrow>
         isabs (getcwd R) \<Longrightarrow> initial_slashes (abspath R (normpath pfx)) = 1 \<Longrightarrow>
         prefix (path_components (abspath R (normpath pfx)))
                (path_components (abspath R (normpath (py_str (path_argument args))))) \<Longrightarrow>
         check_path_prefix R (path_prefix sc) args = None"
    using c check_path_text_complete by simp
qed

text \<open>
  Claim C2 says that a path strictly under the prefix matches. The code does not do so
  for a prefix whose absolute form starts with exactly two slashes: \<^verbatim>\<open>normpath\<close> and
  \<^verbatim>\<open>abspath\<close> keep the two slashes, \<^verbatim>\<open>commonpath\<close> answers with one, and the comparison of
  its answer with the prefix fails for every request. Here the prefix is
  \<^verbatim>\<open>//tmp/scratch\<close> and the request is for \<^verbatim>\<open>//tmp/scratch/file.txt\<close>, which has no
  parent-directory segment and whose parts extend those of the prefix; the request is
  rejected as not under the prefix.
\<close>

theorem double_slash_prefix_rejects_paths_under_it:
  "matches_request test_runtime
      \<lparr>tool_name = ''fs.delete'', allowed_args = [], path_prefix = Some ''//tmp/scratch'',
       max_bytes = None\<rparr>
      ''fs.delete'' [''path'' \<mapsto> PStr ''//tmp/scratch/file.txt'']
     = (False, Some NotUnderPrefix)
   \<and> ''..'' \<notin> set (purepath_parts ''//tmp/scratch/file.txt'')
   \<and> abspath test_runtime (normpath ''//tmp/scratch'') = ''//tmp/scratch''
   \<and> abspath test_runtime (normpath ''//tmp/scratch/file.txt'') = ''//tmp/scratch/file.txt''
   \<and> strict_prefix (purepath_parts ''//tmp/scratch'') (purepath_parts ''//tmp/scratch/file.txt'')
   \<and> commonpath ''//tmp/scratch/file.txt'' ''//tmp/scratch'' = Inr ''/tmp/scratch''"
  by (simp add: path_defs test_runtime_def numeral_2_eq_2)

subsection \<open>Scope matching\<close>

text \<open>
  Claim C7, as amended. When \<^verbatim>\<open>path_prefix\<close> is set, the value subjected to the path checks
  is the first truthy one among the values under \<^verbatim>\<open>path\<close>, \<^verbatim>\<open>file_path\<close> and \<^verbatim>\<open>target\<close>, in
  that order: a value under \<^verbatim>\<open>path\<close> is the one checked when it is truthy, whatever the
  other two keys hold; when it is missing or falsy (\<^verbatim>\<open>None\<close>, the empty string or bytes,
  zero, \<^verbatim>\<open>False\<close>) the value under \<^verbatim>\<open>file_path\<close> is taken if truthy, and the value under
  \<^verbatim>\<open>target\<close> otherwise; when none is truthy there is no path check.
\<close>

theorem path_argument_first_truthy:
  "(py_truthy (args_get args ''path'') \<longrightarrow> path_argument args = args_get args ''path'')
   \<and> (\<not> py_truthy (args_get args ''path'') \<and> py_truthy (args_get args ''file_path'') \<longrightarrow>
        path_argument args = args_get args ''file_path'')
   \<and> (\<not> py_truthy (args_get args ''path'') \<and> \<not> py_truthy (args_get args ''file_path'') \<longrightarrow>
        path_argument args = args_get args ''target'')
   \<and> (args ''path'' = Some v \<and> py_truthy v \<longrightarrow>
        check_path_prefix R (Some p) args = check_path_text R p (py_str v))
   \<and> (\<not> py_truthy (path_argument args) \<longrightarrow> check_path_prefix R (Some p) args = None)
   \<and> check_path_prefix R None args = None"
  by (auto simp add: path_argument_def py_or_def check_path_prefix_def args_get_def Let_def)

theorem path_argument_first_truthy_witness:
  "check_path_prefix test_runtime (Some ''/tmp/scratch'')
      [''path'' \<mapsto> PStr ''/tmp/scratch/a'', ''file_path'' \<mapsto> PStr ''/etc/passwd'']
     = check_path_text test_runtime ''/tmp/scratch'' ''/tmp/scratch/a''
   \<and> path_argument [''file_path'' \<mapsto> PStr ''/etc/passwd'', ''target'' \<mapsto> PStr ''/tmp/x'']
     = PStr ''/etc/passwd''
   \<and> path_argument [''path'' \<mapsto> PInt 0, ''target'' \<mapsto> PStr ''/tmp/x''] = PStr ''/tmp/x''
   \<and> check_path_prefix test_runtime (Some ''/tmp/scratch'') [''path'' \<mapsto> PStr []] = None"
  using path_argument_first_truthy[where
          args = "[''path'' \<mapsto> PStr ''/tmp/scratch/a'', ''file_path'' \<mapsto> PStr ''/etc/passwd'']"
          and v = "PStr ''/tmp/scratch/a''" and R = test_runtime and p = "''/tmp/scratch''"]
    path_argument_first_truthy[where
          args = "[''file_path'' \<mapsto> PStr ''/etc/passwd'', ''target'' \<mapsto> PStr ''/tmp/x'']"]
    path_argument_first_truthy[where
          args = "[''path'' \<mapsto> PInt 0, ''target'' \<mapsto> PStr ''/tmp/x'']"]
    path_argument_first_truthy[where args = "[''path'' \<mapsto> PStr []]" and R = test_runtime
          and p = "''/tmp/scratch''"]
  by (simp add: args_get_def)

text \<open>
  Claim C7 as stated fails for a request that holds the empty string under \<^verbatim>\<open>path\<close> and a
  path under \<^verbatim>\<open>file_path\<close>: the value of \<^verbatim>\<open>file_path\<close> is the one checked, and the request is
  rejected for it, while the same request without \<^verbatim>\<open>file_path\<close> is accepted.
\<close>

theorem path_key_falsy_counterexample:
  "[''path'' \<mapsto> PStr [], ''file_path'' \<mapsto> PStr ''/etc/passwd''] ''path'' = Some (PStr [])
   \<and> path_argument [''path'' \<mapsto> PStr [], ''file_path'' \<mapsto> PStr ''/etc/passwd'']
       = PStr ''/etc/passwd''
   \<and> matches_request test_runtime (scope (fixture_token ''t1'' 2000 True)) ''fs.delete''
        [''path'' \<mapsto> PStr [], ''file_path'' \<mapsto> PStr ''/etc/passwd'']
       = (False, Some NotUnderPrefix)
   \<and> matches_request test_runtime (scope (fixture_token ''t1'' 2000 True)) ''fs.delete''
        [''path'' \<mapsto> PStr []]
       = (True, None)"
  by (simp add: path_defs fixture_token_def test_runtime_def)

subsection \<open>Enforcement\<close>

text \<open>When neither library call raises, \<^verbatim>\<open>enforce_pccap\<close> checks expiry, then the signature,
  then the principal, then the scope, and stops at the first check that fails with that
  check's code; it allows exactly when all four checks pass, with \<^verbatim>\<open>ALLOW_PCCAP_VALID\<close>.
  The five codes are distinct.\<close>

lemma enforce_pccap_order:
  "(clock \<ge> expires_at token \<and> (\<exists>stamp. utc_isoformat R (expires_at token) = Inr stamp) \<longrightarrow>
      enforce_pccap R clock prin tool args token K = Inr (False, DENY_PCCAP_EXPIRED))
   \<and> (clock < expires_at token \<and> verify R K token = Inr False \<longrightarrow>
      enforce_pccap R clock prin tool args token K = Inr (False, DENY_PCCAP_SIGNATURE_INVALID))
   \<and> (clock < expires_at token \<and> verify R K token = Inr True
        \<and> principal_sub token \<noteq> sub prin \<longrightarrow>
      enforce_pccap R clock prin tool args token K = Inr (False, DENY_PCCAP_PRINCIPAL_MISMATCH))
   \<and> (clock < expires_at token \<and> verify R K token = Inr True \<and> principal_sub token = sub prin
        \<and> \<not> fst (matches_request R (scope token) tool args) \<longrightarrow>
      enforce_pccap R clock prin tool args token K = Inr (False, DENY_PCCAP_SCOPE_MISMATCH))
   \<and> ((enforce_pccap R clock prin tool args token K = Inr (True, ALLOW_PCCAP_VALID))
        = (clock < expires_at token \<and> verify R K token = Inr True
           \<and> principal_sub token = sub prin
           \<and> fst (matches_request R (scope token) tool args)))
   \<and> (enforce_pccap R clock prin tool args token K = Inr (allowed, code) \<longrightarrow>
         allowed = (code = ALLOW_PCCAP_VALID))
   \<and> distinct (map code_value [DENY_PCCAP_EXPIRED, DENY_PCCAP_SIGNATURE_INVALID,
        DENY_PCCAP_PRINCIPAL_MISMATCH, DENY_PCCAP_SCOPE_MISMATCH, ALLOW_PCCAP_VALID])"
  by (auto simp add: enforce_pccap_def is_expired_def not_le split: sum.splits if_splits)

lemma enforce_pccap_raises_iff:
  "(enforce_pccap R clock prin tool args token K = Inl e)
     = (if clock \<ge> expires_at token then utc_isoformat R (expires_at token) = Inl e
        else verify R K token = Inl e)"
  by (auto simp add: enforce_pccap_def is_expired_def not_le split: sum.splits if_splits)

lemma verify_raises_iff:
  "(verify R K token = Inl e)
     = (e = TypeError \<and> (\<exists>sg. signature token = Some sg \<and> sg \<noteq> [] \<and> \<not> is_ascii sg))"
  by (auto simp add: verify_def compare_digest_def sign_ascii split: option.splits)

text \<open>
  Claim C1 says that \<^verbatim>\<open>enforce_pccap\<close> answers every request with one of five codes, and
  denies every expired token with \<^verbatim>\<open>DENY_PCCAP_EXPIRED\<close>. The code raises instead on two
  kinds of token. A live token whose signature has a character outside ASCII, here the
  one character U+00E9 (two bytes in UTF-8), makes \<^verbatim>\<open>hmac.compare_digest\<close> raise
  \<^verbatim>\<open>TypeError\<close> where the denial \<^verbatim>\<open>DENY_PCCAP_SIGNATURE_INVALID\<close> is due. An expired token
  whose expiry time is outside the years 1 to 9999, here \<^verbatim>\<open>-100000000000\<close>, makes
  \<^verbatim>\<open>datetime.fromtimestamp\<close> raise \<^verbatim>\<open>ValueError\<close> while the reason of the denial
  \<^verbatim>\<open>DENY_PCCAP_EXPIRED\<close> is formatted. The request is the one the test suite allows, by the
  token's principal, for a path under the prefix, and the token as minted is allowed.
\<close>

theorem enforce_pccap_raises_on_malformed_token:
  "enforce_pccap test_runtime 1500 test_principal ''fs.delete''
      [''path'' \<mapsto> PStr ''/tmp/scratch/file.txt'']
      ((signed_fixture ''t1'' 2000 True)\<lparr>signature := Some [CHR 0xC3, CHR 0xA9]\<rparr>) test_keyring
     = Inl TypeError
   \<and> enforce_pccap test_runtime 1500 test_principal ''fs.delete''
      [''path'' \<mapsto> PStr ''/tmp/scratch/file.txt'']
      ((signed_fixture ''t1'' 2000 True)\<lparr>expires_at := - 100000000000\<rparr>) test_keyring
     = Inl ValueError
   \<and> enforce_pccap test_runtime 1500 test_principal ''fs.delete''
      [''path'' \<mapsto> PStr ''/tmp/scratch/file.txt''] (signed_fixture ''t1'' 2000 True) test_keyring
     = Inr (True, ALLOW_PCCAP_VALID)"
proof -
  have a: "\<not> is_ascii [CHR 0xC3, CHR 0xA9]" by (simp add: is_ascii_def)
  have 1: "enforce_pccap test_runtime 1500 test_principal ''fs.delete''
      [''path'' \<mapsto> PStr ''/tmp/scratch/file.txt'']
      ((signed_fixture ''t1'' 2000 True)\<lparr>signature := Some [CHR 0xC3, CHR 0xA9]\<rparr>) test_keyring
     = Inl TypeError"
    using a by (simp add: enforce_pccap_def is_expired_def verify_def compare_digest_def
        fixture_fields)
  have 2: "enforce_pccap test_runtime 1500 test_principal ''fs.delete''
      [''path'' \<mapsto> PStr ''/tmp/scratch/file.txt'']
      ((signed_fixture ''t1'' 2000 True)\<lparr>expires_at := - 100000000000\<rparr>) test_keyring
     = Inl ValueError"
    by (simp add: enforce_pccap_def is_expired_def test_runtime_def)
  show ?thesis using 1 2 by (simp add: fixture_enforced)
qed

subsection \<open>Minting\<close>




subsection \<open>Evaluation\<close>

lemma consume_allowed_not_found:
  "snd (fst (consume_allowed s t r)) \<noteq> ''DENY_PCCAP_NOT_FOUND''"
  by (cases r) (simp add: consume_allowed_def mark_used_def code_value_not_found)

lemma discover_not_found:
  "fst (discover R K clk i prin tool args ts s) \<noteq> Inr (b, ''DENY_PCCAP_NOT_FOUND'')"
proof (induction ts arbitrary: i)
  case Nil
  show ?case by simp
next
  case (Cons t ts)
  have c: "consume_allowed s t r = (x, s') \<Longrightarrow> x \<noteq> (b, ''DENY_PCCAP_NOT_FOUND'')" for r x s'
    using consume_allowed_not_found[of s t r] by auto
  show ?case
    using Cons.IH c
    by (auto split: prod.splits sum.splits)
qed

lemma evaluate_without_token:
  "tid_opt = None \<or> tid_opt = Some [] \<Longrightarrow>
   evaluate_with_pccap R E clk prin tool args tid_opt =
     (case discover R (engine_keyring E) clk 1 prin tool args
             (list_for_principal (engine_store E) (clk 0) (sub prin)) (engine_store E) of
        (r, s') \<Rightarrow> (r, E\<lparr>engine_store := s'\<rparr>))"
  by (auto simp add: evaluate_with_pccap_def Let_def)







text \<open>
  Claim C9. A call of \<^verbatim>\<open>evaluate_with_pccap\<close> with the empty string as token id is the call
  with the token id omitted: the same outcome and the same engine afterwards. It runs the
  discovery loop over the principal's active tokens, so it never answers
  \<^verbatim>\<open>DENY_PCCAP_NOT_FOUND\<close>, and it answers \<^verbatim>\<open>DENY_NO_PCCAP\<close> when the principal has no active
  token.
\<close>

theorem evaluate_empty_token_id_is_discovery:
  "evaluate_with_pccap R E clk prin tool args (Some [])
     = evaluate_with_pccap R E clk prin tool args None
   \<and> evaluate_with_pccap R E clk prin tool args (Some [])
     = (case discover R (engine_keyring E) clk 1 prin tool args
               (list_for_principal (engine_store E) (clk 0) (sub prin)) (engine_store E) of
          (r, s') \<Rightarrow> (r, E\<lparr>engine_store := s'\<rparr>))
   \<and> (\<forall>b. fst (evaluate_with_pccap R E clk prin tool args (Some []))
             \<noteq> Inr (b, ''DENY_PCCAP_NOT_FOUND''))
   \<and> (list_for_principal (engine_store E) (clk 0) (sub prin) = [] \<longrightarrow>
        evaluate_with_pccap R E clk prin tool args (Some [])
          = (Inr (False, ''DENY_NO_PCCAP''), E))"
proof -
  let ?d = "discover R (engine_keyring E) clk 1 prin tool args
               (list_for_principal (engine_store E) (clk 0) (sub prin)) (engine_store E)"
  have e: "evaluate_with_pccap R E clk prin tool args (Some [])
             = (case ?d of (r, s') \<Rightarrow> (r, E\<lparr>engine_store := s'\<rparr>))"
    by (rule evaluate_without_token) simp
  have n: "evaluate_with_pccap R E clk prin tool args None
             = (case ?d of (r, s') \<Rightarrow> (r, E\<lparr>engine_store := s'\<rparr>))"
    by (rule evaluate_without_token) simp
  have c: "fst (evaluate_with_pccap R E clk prin tool args (Some []))
             \<noteq> Inr (b, ''DENY_PCCAP_NOT_FOUND'')" for b
  proof (cases ?d)
    case (Pair x s')
    then show ?thesis
      using discover_not_found[of R "engine_keyring E" clk 1 prin tool args
        "list_for_principal (engine_store E) (clk 0) (sub prin)" "engine_store E" b]
      by (simp add: e)
  qed
  have z: "list_for_principal (engine_store E) (clk 0) (sub prin) = [] \<longrightarrow>
        evaluate_with_pccap R E clk prin tool args (Some [])
          = (Inr (False, ''DENY_NO_PCCAP''), E)"
    unfolding e by simp
  show ?thesis using e n c z by simp
qed

text \<open>With the empty token id the fixture token is found and consumed; on an engine without
  tokens the answer is \<^verbatim>\<open>DENY_NO_PCCAP\<close>.\<close>

theorem evaluate_empty_token_id_is_discovery_witness:
  "fst (evaluate_with_pccap test_runtime
          \<lparr>engine_keyring = test_keyring,
           engine_store = store new_store (signed_fixture ''t1'' 2000 True)\<rparr>
          (\<lambda>n. 1500) test_principal ''fs.delete''
          [''path'' \<mapsto> PStr ''/tmp/scratch/file.txt''] (Some []))
     = Inr (True, ''ALLOW_PCCAP_VALID'')
   \<and> is_used (engine_store (snd (evaluate_with_pccap test_runtime
          \<lparr>engine_keyring = test_keyring,
           engine_store = store new_store (signed_fixture ''t1'' 2000 True)\<rparr>
          (\<lambda>n. 1500) test_principal ''fs.delete''
          [''path'' \<mapsto> PStr ''/tmp/scratch/file.txt''] (Some [])))) ''t1''
   \<and> evaluate_with_pccap test_runtime (new_engine test_keyring None)
          (\<lambda>n. 1500) test_principal ''fs.delete''
          [''path'' \<mapsto> PStr ''/tmp/scratch/file.txt''] (Some [])
     = (Inr (False, ''DENY_NO_PCCAP''), new_engine test_keyring None)"
proof -
  let ?t = "signed_fixture ''t1'' 2000 True"
  let ?ok = "[''path'' \<mapsto> PStr ''/tmp/scratch/file.txt'']"
  let ?E = "\<lparr>engine_keyring = test_keyring, engine_store = store new_store ?t\<rparr>"
  have l: "list_for_principal (store new_store ?t) 1500 (sub test_principal) = [?t]"
    by (simp add: list_for_principal_def store_def new_store_def DAList.update.rep_eq
        DAList.empty.rep_eq is_expired_def is_used_def fixture_fields test_principal_def)
  have l0: "list_for_principal (engine_store (new_engine test_keyring None)) 1500
              (sub test_principal) = []"
    by (simp add: list_for_principal_def new_engine_def new_store_def DAList.empty.rep_eq)
  have d: "discover test_runtime test_keyring (\<lambda>n. 1500) (Suc 0) test_principal ''fs.delete''
             ?ok [?t] (store new_store ?t)
           = (Inr (True, ''ALLOW_PCCAP_VALID''),
              (store new_store ?t)\<lparr>used_tokens := {''t1''}\<rparr>)"
    by (simp add: fixture_enforced fixture_matches fixture_fields consume_allowed_def
        mark_used_def is_used_def store_def new_store_def)
  have e1: "evaluate_with_pccap test_runtime ?E (\<lambda>n. 1500) test_principal ''fs.delete'' ?ok
              (Some [])
            = (Inr (True, ''ALLOW_PCCAP_VALID''),
               ?E\<lparr>engine_store := (store new_store ?t)\<lparr>used_tokens := {''t1''}\<rparr>\<rparr>)"
    using evaluate_empty_token_id_is_discovery[where R = test_runtime and E = ?E
        and clk = "\<lambda>n. 1500" and prin = test_principal and tool = "''fs.delete''"
        and args = ?ok, THEN conjunct2, THEN conjunct1]
    by (simp add: l d del: discover.simps)
  have e2: "evaluate_with_pccap test_runtime (new_engine test_keyring None)
          (\<lambda>n. 1500) test_principal ''fs.delete'' ?ok (Some [])
     = (Inr (False, ''DENY_NO_PCCAP''), new_engine test_keyring None)"
    using evaluate_empty_token_id_is_discovery[where R = test_runtime
        and E = "new_engine test_keyring None"
        and clk = "\<lambda>n. 1500" and prin = test_principal and tool = "''fs.delete''"
        and args = ?ok, THEN conjunct2, THEN conjunct2, THEN conjunct2] l0
    by simp
  show ?thesis
    unfolding e1 e2 by (simp add: is_used_def)
qed





end
